theory Spec2Isabelle
  imports Complex_Main "HOL-Library.Word" "HOL-Library.List_Lexorder" "HOL-Library.Char_ord"
begin

unbundle bit_operations_syntax

section \<open>Core security types (security/types.ts)\<close>

text \<open>
  JavaScript numbers are modelled as mathematical reals (scores, severities) or integers
  (offsets, lengths); rounding of IEEE doubles is outside the model. Text is a list of
  characters standing for the ASCII range of a JavaScript string.
\<close>

datatype RiskLevel = SAFE | SUSPICIOUS | DANGEROUS | CRITICAL

datatype SecurityAction = PASS | FLAG | REDACT | BLOCK

datatype Tier = Structural | Contextual | ThreatIntel

datatype MetaValue = MStr string | MNum real | MUndefined

record Detection =
  tier :: Tier
  ruleId :: string
  ruleName :: string
  severity :: real
  matchedContent :: string
  matchOffset :: int
  matchLength :: int
  confidence :: real
  metadata :: "(string \<times> MetaValue) list option"

record FieldScanResult =
  fieldName :: string
  originalLength :: nat
  riskScore :: real
  riskLevel :: RiskLevel
  action :: SecurityAction
  detections :: "Detection list"
  sanitizedContent :: "string option"

datatype FieldType = Title | Description | Location | AttendeeName | Attachment

record ScanContext =
  ctxFieldName :: string
  fieldType :: FieldType
  organizerEmail :: "string option"
  organizerDomain :: "string option"
  isExternalOrganizer :: bool
  calendarOwnerDomain :: "string option"

definition maxDetectionsPerField :: nat where "maxDetectionsPerField = 50"

section \<open>Risk scorer (RiskScorer)\<close>

record ScoringConfig =
  thresholdSuspicious :: real
  thresholdDangerous :: real
  thresholdCritical :: real

definition DEFAULT_CONFIG :: ScoringConfig where
  "DEFAULT_CONFIG = \<lparr>thresholdSuspicious = 0.30, thresholdDangerous = 0.60,
     thresholdCritical = 0.85\<rparr>"

definition TIER_WEIGHTS :: "(Tier \<times> real) list" where
  "TIER_WEIGHTS = [(Structural, 0.40), (Contextual, 0.45), (ThreatIntel, 0.15)]"

record ScoreResult =
  score :: real
  level :: RiskLevel
  act :: SecurityAction

text \<open>\<open>Map.set\<close> on an insertion-ordered map: an existing key keeps its place.\<close>

fun map_set :: "'k \<Rightarrow> 'v \<Rightarrow> ('k \<times> 'v) list \<Rightarrow> ('k \<times> 'v) list" where
  "map_set k v [] = [(k, v)]"
| "map_set k v ((k', v') # m) = (if k = k' then (k, v) # m else (k', v') # map_set k v m)"

text \<open>One round of the grouping loop: \<open>existing = byTier.get(d.tier) ?? []; existing.push(d)\<close>.\<close>

definition byTier_add :: "(Tier \<times> Detection list) list \<Rightarrow> Detection \<Rightarrow> (Tier \<times> Detection list) list" where
  "byTier_add m d =
     (let existing = (case map_of m (tier d) of None \<Rightarrow> [] | Some e \<Rightarrow> e)
      in map_set (tier d) (existing @ [d]) m)"

definition byTier :: "Detection list \<Rightarrow> (Tier \<times> Detection list) list" where
  "byTier ds = foldl byTier_add [] ds"

text \<open>
  \<open>Math.max(...xs)\<close>. For no arguments JavaScript returns \<open>-Infinity\<close>, which the reals
  do not have; the scorer only calls it on the non-empty groups of \<open>byTier\<close>
  (lemma \<open>byTier_groups_nonempty\<close>), so that branch is never taken.
\<close>

fun math_max :: "real list \<Rightarrow> real" where
  "math_max [] = 0"
| "math_max (x # xs) = foldl max x xs"

definition tierScore :: "Detection list \<Rightarrow> real" where
  "tierScore tierDetections =
     (let maxSeverity = math_max (map severity tierDetections);
          convergenceBonus = min ((real (length tierDetections) - 1) * 0.05) 0.15
      in min (maxSeverity + convergenceBonus) 1.0)"

definition tierScores :: "Detection list \<Rightarrow> (Tier \<times> real) list" where
  "tierScores ds = map (\<lambda>(t, tds). (t, tierScore tds)) (byTier ds)"

definition scoreToLevel :: "ScoringConfig \<Rightarrow> real \<Rightarrow> RiskLevel" where
  "scoreToLevel cfg s =
     (if s \<ge> thresholdCritical cfg then CRITICAL
      else if s \<ge> thresholdDangerous cfg then DANGEROUS
      else if s \<ge> thresholdSuspicious cfg then SUSPICIOUS
      else SAFE)"

fun levelToAction :: "RiskLevel \<Rightarrow> SecurityAction" where
  "levelToAction CRITICAL = BLOCK"
| "levelToAction DANGEROUS = REDACT"
| "levelToAction SUSPICIOUS = FLAG"
| "levelToAction SAFE = PASS"

definition weightedSum :: "(Tier \<times> real) list \<Rightarrow> real" where
  "weightedSum ts =
     foldl (\<lambda>compositeScore (t, weight).
              compositeScore + (case map_of ts t of None \<Rightarrow> 0 | Some s \<Rightarrow> s) * weight)
       0 TIER_WEIGHTS"

definition corroborate :: "nat \<Rightarrow> real \<Rightarrow> real" where
  "corroborate firingTiers compositeScore =
     (let c1 = (if firingTiers \<ge> 2 then min (compositeScore * 1.15) 1.0 else compositeScore);
          c2 = (if firingTiers \<ge> 3 then min (c1 * 1.10) 1.0 else c1)
      in c2)"

definition scoreField :: "ScoringConfig \<Rightarrow> Detection list \<Rightarrow> ScoreResult" where
  "scoreField cfg ds =
     (if length ds = 0 then \<lparr>score = 0, level = SAFE, act = PASS\<rparr>
      else
        let ts = tierScores ds;
            compositeScore = weightedSum ts;
            firingTiers = length (filter (\<lambda>s. s > 0) (map snd ts));
            compositeScore = corroborate firingTiers compositeScore;
            lv = scoreToLevel cfg compositeScore
        in \<lparr>score = compositeScore, level = lv, act = levelToAction lv\<rparr>)"

definition scoreEvent :: "ScoringConfig \<Rightarrow> FieldScanResult list \<Rightarrow> ScoreResult" where
  "scoreEvent cfg frs =
     (if length frs = 0 then \<lparr>score = 0, level = SAFE, act = PASS\<rparr>
      else
        let maxScore = math_max (map riskScore frs);
            lv = scoreToLevel cfg maxScore
        in \<lparr>score = maxScore, level = lv, act = levelToAction lv\<rparr>)"

subsection \<open>The scoring algorithm as the specification words it\<close>

definition spec_detections_in_tier :: "Detection list \<Rightarrow> Tier \<Rightarrow> Detection list" where
  "spec_detections_in_tier D t = filter (\<lambda>d. tier d = t) D"

definition spec_tier_score :: "Detection list \<Rightarrow> Tier \<Rightarrow> real" where
  "spec_tier_score D t =
     (let ds = spec_detections_in_tier D t
      in if ds = [] then 0
         else min 1.0 (Max (set (map severity ds)) + min 0.15 (0.05 * (real (length ds) - 1))))"

definition spec_weight :: "Tier \<Rightarrow> real" where
  "spec_weight t = (case t of Structural \<Rightarrow> 0.40 | Contextual \<Rightarrow> 0.45 | ThreatIntel \<Rightarrow> 0.15)"

definition spec_composite :: "Detection list \<Rightarrow> real" where
  "spec_composite D = (\<Sum>t \<leftarrow> [Structural, Contextual, ThreatIntel]. spec_tier_score D t * spec_weight t)"

definition spec_firing :: "Detection list \<Rightarrow> nat" where
  "spec_firing D = length (filter (\<lambda>t. spec_tier_score D t > 0) [Structural, Contextual, ThreatIntel])"

definition spec_score :: "Detection list \<Rightarrow> real" where
  "spec_score D =
     (let c = spec_composite D; f = spec_firing D;
          c = (if f \<ge> 2 then min 1.0 (c * 1.15) else c);
          c = (if f \<ge> 3 then min 1.0 (c * 1.10) else c)
      in c)"

definition spec_level :: "ScoringConfig \<Rightarrow> real \<Rightarrow> RiskLevel" where
  "spec_level cfg s =
     (if s \<ge> thresholdCritical cfg then CRITICAL
      else if s \<ge> thresholdDangerous cfg then DANGEROUS
      else if s \<ge> thresholdSuspicious cfg then SUSPICIOUS
      else SAFE)"

definition spec_action :: "RiskLevel \<Rightarrow> SecurityAction" where
  "spec_action l = (case l of SAFE \<Rightarrow> PASS | SUSPICIOUS \<Rightarrow> FLAG | DANGEROUS \<Rightarrow> REDACT | CRITICAL \<Rightarrow> BLOCK)"

definition spec_scoreField :: "ScoringConfig \<Rightarrow> Detection list \<Rightarrow> ScoreResult" where
  "spec_scoreField cfg D =
     (if D = [] then \<lparr>score = 0, level = SAFE, act = PASS\<rparr>
      else \<lparr>score = spec_score D, level = spec_level cfg (spec_score D),
            act = spec_action (spec_level cfg (spec_score D))\<rparr>)"


section \<open>JavaScript string primitives\<close>

definition isSpace :: "char \<Rightarrow> bool" where
  \<comment> \<open>the ASCII members of the regex class \<open>\s\<close>, which \<open>trim\<close> strips as well\<close>
  "isSpace c = (c \<in> set [CHR 0x09, CHR 0x0A, CHR 0x0B, CHR 0x0C, CHR 0x0D, CHR '' ''])"

definition trim :: "string \<Rightarrow> string" where
  "trim s = rev (dropWhile isSpace (rev (dropWhile isSpace s)))"

definition isUpper :: "char \<Rightarrow> bool" where
  "isUpper c = (of_char CHR ''A'' \<le> (of_char c :: nat) \<and> (of_char c :: nat) \<le> of_char CHR ''Z'')"

definition isLower :: "char \<Rightarrow> bool" where
  "isLower c = (of_char CHR ''a'' \<le> (of_char c :: nat) \<and> (of_char c :: nat) \<le> of_char CHR ''z'')"

definition lowerChar :: "char \<Rightarrow> char" where
  "lowerChar c = (if isUpper c then char_of (of_char c + (32::nat)) else c)"

definition upperChar :: "char \<Rightarrow> char" where
  "upperChar c = (if isLower c then char_of (of_char c - (32::nat)) else c)"

text \<open>
  \<open>toLowerCase\<close> and \<open>toUpperCase\<close> on ASCII text. JavaScript also maps letters
  outside ASCII (and may change the length of the string there); statements that depend
  on case mapping carry the hypothesis \<open>isAscii\<close>.
\<close>

definition toLowerCase :: "string \<Rightarrow> string" where
  "toLowerCase s = map lowerChar s"

definition toUpperCase :: "string \<Rightarrow> string" where
  "toUpperCase s = map upperChar s"

definition isAscii :: "string \<Rightarrow> bool" where
  "isAscii s = list_all (\<lambda>c. (of_char c :: nat) < 128) s"

text \<open>\<open>s.slice(a, b)\<close> and \<open>s.slice(a)\<close> for non-negative indices; both clamp at the end.\<close>

definition slice :: "string \<Rightarrow> nat \<Rightarrow> nat \<Rightarrow> string" where
  "slice s a b = take (b - a) (drop a s)"

definition sliceFrom :: "string \<Rightarrow> nat \<Rightarrow> string" where
  "sliceFrom s a = drop a s"

text \<open>\<open>hay.startsWith(needle)\<close>, \<open>hay.indexOf(needle)\<close> (\<open>None\<close> for -1), \<open>hay.includes(needle)\<close>.\<close>

fun startsWith :: "string \<Rightarrow> string \<Rightarrow> bool" where
  "startsWith hay [] = True"
| "startsWith [] (n # ns) = False"
| "startsWith (h # hs) (n # ns) = (h = n \<and> startsWith hs ns)"

fun indexOfFrom :: "string \<Rightarrow> string \<Rightarrow> nat \<Rightarrow> nat option" where
  "indexOfFrom [] needle i = (if needle = [] then Some i else None)"
| "indexOfFrom (h # hs) needle i =
     (if startsWith (h # hs) needle then Some i else indexOfFrom hs needle (Suc i))"

definition indexOf :: "string \<Rightarrow> string \<Rightarrow> nat option" where
  "indexOf hay needle = indexOfFrom hay needle 0"

definition includesStr :: "string \<Rightarrow> string \<Rightarrow> bool" where
  "includesStr hay needle = (indexOf hay needle \<noteq> None)"

text \<open>\<open>s.split(c)\<close> for a one-character separator.\<close>

fun split :: "char \<Rightarrow> string \<Rightarrow> string list" where
  "split sep [] = [[]]"
| "split sep (c # cs) =
     (if c = sep then [] # split sep cs
      else (case split sep cs of [] \<Rightarrow> [[c]] | p # ps \<Rightarrow> (c # p) # ps))"

text \<open>Decimal rendering of a non-negative integer, as a template literal does.\<close>

definition digitChar :: "nat \<Rightarrow> char" where
  "digitChar n = char_of (48 + n)"

function showNat :: "nat \<Rightarrow> string" where
  "showNat n = (if n < 10 then [digitChar n] else showNat (n div 10) @ [digitChar (n mod 10)])"
  by pat_completeness auto
termination
  by (relation "measure id") auto

declare showNat.simps [simp del]

section \<open>Content redactor (ContentRedactor)\<close>

definition placeholder :: "Detection \<Rightarrow> string" where
  "placeholder det = ''[REDACTED:'' @ ruleId det @ '']''"

text \<open>One round of the splice loop.\<close>

definition redactStep :: "string \<Rightarrow> Detection \<Rightarrow> string" where
  "redactStep result det =
     (let before = slice result 0 (nat (matchOffset det));
          after = sliceFrom result (nat (matchOffset det + matchLength det))
      in before @ placeholder det @ after)"

text \<open>
  \<open>Array.prototype.sort\<close> is stable; with the comparator \<open>b.matchOffset - a.matchOffset\<close>
  it is the stable sort by descending offset, here insertion sort on the negated key.
\<close>

definition sortedForRedaction :: "Detection list \<Rightarrow> Detection list" where
  "sortedForRedaction ds =
     sort_key (\<lambda>d. - matchOffset d) (filter (\<lambda>d. matchLength d > 0 \<and> matchOffset d \<ge> 0) ds)"

definition redactDangerousContent :: "string \<Rightarrow> FieldScanResult \<Rightarrow> string" where
  "redactDangerousContent content scanResult =
     foldl redactStep content (sortedForRedaction (detections scanResult))"

definition blockNotice :: "nat \<Rightarrow> string" where
  \<comment> \<open>the dash of the notice is U+2014, written here as its three UTF-8 bytes\<close>
  "blockNotice n = ''[GATEKEEP: Content blocked '' @ [CHR 0xE2, CHR 0x80, CHR 0x94] @ '' '' @ showNat n
     @ '' threat(s) detected. Use gatekeep-view-quarantined to inspect.]''"

definition redact :: "string \<Rightarrow> FieldScanResult \<Rightarrow> string" where
  "redact originalContent scanResult =
     (case action scanResult of
        BLOCK \<Rightarrow> blockNotice (length (detections scanResult))
      | REDACT \<Rightarrow> redactDangerousContent originalContent scanResult
      | FLAG \<Rightarrow> originalContent
      | PASS \<Rightarrow> originalContent)"


section \<open>Sanitization engine (SanitizationEngine)\<close>

record Organizer =
  email_o :: "string option"

record Attendee =
  displayName :: "string option"
  email :: "string option"

record AttachmentRef =
  title :: "string option"

record CalendarEvent =
  id_e :: string
  calendarId :: "string option"
  summary :: "string option"
  description :: "string option"
  location :: "string option"
  organizer :: "Organizer option"
  attendees :: "Attendee list option"
  attachments :: "AttachmentRef list option"

record EventScanResult =
  eventId :: string
  calendarId_r :: string
  organizerEmail_r :: "string option"
  isExternalOrganizer_r :: bool
  overallRiskScore :: real
  overallRiskLevel :: RiskLevel
  overallAction :: SecurityAction
  fieldResults :: "FieldScanResult list"
  scanDurationMs :: real
  timestamp :: string

text \<open>
  The readings of \<open>performance.now()\<close> and \<open>new Date()\<close> that one call of
  \<open>scanEvent\<close> makes are inputs of the model.
\<close>

record Clock =
  startTime :: real
  endTime :: real
  nowIso :: string

text \<open>
  A detection tier is an object with an \<open>analyze(text, context)\<close> method. The threat
  intelligence tier reads and writes a cache, so a tier is a function on a state \<open>'s\<close>
  that it may change; the structural and contextual tiers leave it alone.
\<close>

type_synonym 's DetectionTier = "string \<Rightarrow> ScanContext \<Rightarrow> 's \<Rightarrow> Detection list \<times> 's"

record 's Engine =
  tiers :: "'s DetectionTier list"
  scorer :: ScoringConfig

text \<open>Truthiness of an optional string: defined and not empty.\<close>

definition truthy :: "string option \<Rightarrow> bool" where
  "truthy s = (case s of None \<Rightarrow> False | Some v \<Rightarrow> v \<noteq> [])"

definition extractDomain :: "string option \<Rightarrow> string option" where
  "extractDomain em =
     (if \<not> truthy em then None
      else let parts = split CHR ''@'' (the em)
           in if length parts = 2 then Some (toLowerCase (parts ! 1)) else None)"

definition organizerEmailOf :: "CalendarEvent \<Rightarrow> string option" where
  \<comment> \<open>\<open>event.organizer?.email\<close>\<close>
  "organizerEmailOf event = (case organizer event of None \<Rightarrow> None | Some orga \<Rightarrow> email_o orga)"

text \<open>The loop over \<open>this.tiers\<close> in \<open>scanField\<close>, collecting \<open>allDetections\<close>.\<close>

fun runTiers :: "'s DetectionTier list \<Rightarrow> string \<Rightarrow> ScanContext \<Rightarrow> 's \<Rightarrow> Detection list \<times> 's" where
  "runTiers [] content context st = ([], st)"
| "runTiers (t # ts) content context st =
     (let (ds, st1) = t content context st;
          (rest, st2) = runTiers ts content context st1
      in (ds @ rest, st2))"

definition scanField :: "'s Engine \<Rightarrow> string \<Rightarrow> ScanContext \<Rightarrow> 's \<Rightarrow> FieldScanResult \<times> 's" where
  "scanField eng content context st =
     (let (allDetections, st') = runTiers (tiers eng) content context st;
          sc = scoreField (scorer eng) allDetections;
          fieldResult = \<lparr>fieldName = ctxFieldName context,
                         originalLength = length content,
                         riskScore = score sc,
                         riskLevel = level sc,
                         action = act sc,
                         detections = take maxDetectionsPerField allDetections,
                         sanitizedContent = None\<rparr>
      in if act sc = REDACT \<or> act sc = BLOCK
         then (fieldResult\<lparr>sanitizedContent := Some (redact content fieldResult)\<rparr>, st')
         else (fieldResult, st'))"

text \<open>The two indexed loops of \<open>extractScannableFields\<close>; \<open>i\<close> is the array index.\<close>

fun attendeeFields :: "nat \<Rightarrow> Attendee list \<Rightarrow> (string \<times> FieldType \<times> string) list" where
  "attendeeFields i [] = []"
| "attendeeFields i (attendee # rest) =
     (if truthy (displayName attendee)
      then (''attendees['' @ showNat i @ ''].displayName'', AttendeeName, the (displayName attendee)) #
           attendeeFields (Suc i) rest
      else attendeeFields (Suc i) rest)"

fun attachmentFields :: "nat \<Rightarrow> AttachmentRef list \<Rightarrow> (string \<times> FieldType \<times> string) list" where
  "attachmentFields i [] = []"
| "attachmentFields i (attachment # rest) =
     (if truthy (title attachment)
      then (''attachments['' @ showNat i @ ''].title'', Attachment, the (title attachment)) #
           attachmentFields (Suc i) rest
      else attachmentFields (Suc i) rest)"

definition extractScannableFields :: "CalendarEvent \<Rightarrow> (string \<times> FieldType \<times> string) list" where
  "extractScannableFields event =
     (if truthy (summary event) then [(''summary'', Title, the (summary event))] else []) @
     (if truthy (description event) then [(''description'', Description, the (description event))] else []) @
     (if truthy (location event) then [(''location'', Location, the (location event))] else []) @
     (case attendees event of None \<Rightarrow> [] | Some as \<Rightarrow> attendeeFields 0 as) @
     (case attachments event of None \<Rightarrow> [] | Some as \<Rightarrow> attachmentFields 0 as)"

text \<open>The loop of \<open>scanEvent\<close> over the scannable fields, collecting \<open>fieldResults\<close>.\<close>

fun scanFields :: "'s Engine \<Rightarrow> (string \<Rightarrow> FieldType \<Rightarrow> ScanContext)
    \<Rightarrow> (string \<times> FieldType \<times> string) list \<Rightarrow> 's \<Rightarrow> FieldScanResult list \<times> 's" where
  "scanFields eng mk [] st = ([], st)"
| "scanFields eng mk ((fname, ftype, content) # rest) st =
     (if content = [] \<or> length (trim content) = 0 then scanFields eng mk rest st
      else let (fieldResult, st1) = scanField eng content (mk fname ftype) st;
               (more, st2) = scanFields eng mk rest st1
           in (fieldResult # more, st2))"

definition applySanitization :: "CalendarEvent \<Rightarrow> EventScanResult \<Rightarrow> CalendarEvent" where
  "applySanitization event result =
     (if overallAction result = PASS then event
      else foldl (\<lambda>sanitized fieldResult.
             if sanitizedContent fieldResult \<noteq> None \<and>
                (action fieldResult = REDACT \<or> action fieldResult = BLOCK)
             then (if fieldName fieldResult = ''summary''
                     then sanitized\<lparr>summary := sanitizedContent fieldResult\<rparr>
                   else if fieldName fieldResult = ''description''
                     then sanitized\<lparr>description := sanitizedContent fieldResult\<rparr>
                   else if fieldName fieldResult = ''location''
                     then sanitized\<lparr>location := sanitizedContent fieldResult\<rparr>
                   else sanitized)
             else sanitized)
           event (fieldResults result))"

definition scanEvent :: "'s Engine \<Rightarrow> Clock \<Rightarrow> CalendarEvent \<Rightarrow> string option \<Rightarrow> 's
    \<Rightarrow> (EventScanResult \<times> CalendarEvent) \<times> 's" where
  "scanEvent eng clock event ownerDomain st =
     (let orgDomain = extractDomain (organizerEmailOf event);
          isExternal = (truthy ownerDomain \<and> truthy orgDomain \<and> orgDomain \<noteq> ownerDomain);
          scannableFields = extractScannableFields event;
          mk = (\<lambda>fname ftype.
                  \<lparr>ctxFieldName = fname, fieldType = ftype,
                   organizerEmail = organizerEmailOf event,
                   organizerDomain = orgDomain,
                   isExternalOrganizer = isExternal,
                   calendarOwnerDomain = ownerDomain\<rparr>);
          (frs, st') = scanFields eng mk scannableFields st;
          eventScore = scoreEvent (scorer eng) frs;
          result = \<lparr>eventId = id_e event,
                    calendarId_r = (case calendarId event of None \<Rightarrow> [] | Some c \<Rightarrow> c),
                    organizerEmail_r = organizerEmailOf event,
                    isExternalOrganizer_r = isExternal,
                    overallRiskScore = score eventScore,
                    overallRiskLevel = level eventScore,
                    overallAction = act eventScore,
                    fieldResults = frs,
                    scanDurationMs = endTime clock - startTime clock,
                    timestamp = nowIso clock\<rparr>;
          sanitizedEvent = applySanitization event result
      in ((result, sanitizedEvent), st'))"

section \<open>Regular expressions of the JavaScript runtime\<close>

text \<open>
  The patterns of the source are values of \<open>rx\<close>. A position in the scanned text is the
  character before it (for \<open>\b\<close>) and the text from it on. The matcher \<open>rxm\<close> returns the
  positions at which a match of the pattern starting at the given position can end, in
  the order in which the backtracking matcher of the RegExp specification tries them; the
  match that \<open>exec\<close> reports is the first one.
\<close>

datatype rx =
    Cls "char \<Rightarrow> bool"
  | Eps
  | Seq rx rx
  | Alt rx rx
  | Star rx
  | LazyStar rx
  | AtMost nat rx
  | WordB
  | NegLook rx

type_synonym pos = "char option \<times> string"

definition isWord :: "char \<Rightarrow> bool" where
  \<comment> \<open>the class \<open>\w\<close>\<close>
  "isWord c = (isUpper c \<or> isLower c
     \<or> (of_char CHR ''0'' \<le> (of_char c :: nat) \<and> (of_char c :: nat) \<le> of_char CHR ''9'')
     \<or> c = CHR ''_'')"

definition atWordBoundary :: "pos \<Rightarrow> bool" where
  "atWordBoundary p =
     ((case fst p of None \<Rightarrow> False | Some c \<Rightarrow> isWord c)
      \<noteq> (case snd p of [] \<Rightarrow> False | c # cs \<Rightarrow> isWord c))"

text \<open>
  Greedy and lazy iteration. An iteration that consumes nothing is rejected, as the
  specification's RepeatMatcher does, so every iteration shortens the rest of the text and
  the length of that rest is enough fuel.
\<close>

fun starG :: "(pos \<Rightarrow> pos list) \<Rightarrow> nat \<Rightarrow> pos \<Rightarrow> pos list" where
  "starG f 0 p = [p]"
| "starG f (Suc n) p =
     concat (map (\<lambda>q. if length (snd q) < length (snd p) then starG f n q else []) (f p)) @ [p]"

fun starL :: "(pos \<Rightarrow> pos list) \<Rightarrow> nat \<Rightarrow> pos \<Rightarrow> pos list" where
  "starL f 0 p = [p]"
| "starL f (Suc n) p =
     p # concat (map (\<lambda>q. if length (snd q) < length (snd p) then starL f n q else []) (f p))"

fun atMostG :: "(pos \<Rightarrow> pos list) \<Rightarrow> nat \<Rightarrow> pos \<Rightarrow> pos list" where
  "atMostG f 0 p = [p]"
| "atMostG f (Suc n) p =
     concat (map (\<lambda>q. if length (snd q) < length (snd p) then atMostG f n q else []) (f p)) @ [p]"

primrec rxm :: "rx \<Rightarrow> pos \<Rightarrow> pos list" where
  "rxm (Cls P) p = (case snd p of [] \<Rightarrow> [] | c # cs \<Rightarrow> if P c then [(Some c, cs)] else [])"
| "rxm Eps p = [p]"
| "rxm (Seq a b) p = concat (map (rxm b) (rxm a p))"
| "rxm (Alt a b) p = rxm a p @ rxm b p"
| "rxm (Star a) p = starG (rxm a) (length (snd p)) p"
| "rxm (LazyStar a) p = starL (rxm a) (length (snd p)) p"
| "rxm (AtMost n a) p = atMostG (rxm a) n p"
| "rxm WordB p = (if atWordBoundary p then [p] else [])"
| "rxm (NegLook a) p = (if rxm a p = [] then [p] else [])"



definition Sq :: "rx list \<Rightarrow> rx" where
  "Sq rs = foldr Seq rs Eps"














text \<open>The quantifiers \<open>{n}\<close> and \<open>{n,}\<close>.\<close>

definition Times :: "nat \<Rightarrow> rx \<Rightarrow> rx" where
  "Times n r = Sq (replicate n r)"

definition AtLeast :: "nat \<Rightarrow> rx \<Rightarrow> rx" where
  "AtLeast n r = Seq (Times n r) (Star r)"




text \<open>
  \<open>text.match(pattern)\<close> with the \<open>g\<close>: all matches from left to right; after a
  match of length 0 the search goes on one character further.
\<close>

function matchFrom :: "rx \<Rightarrow> pos \<Rightarrow> string list" where
  "matchFrom r p =
     (case rxm r p of
        q # qs \<Rightarrow>
          if length (snd q) < length (snd p)
          then take (length (snd p) - length (snd q)) (snd p) # matchFrom r q
          else [] # (case snd p of [] \<Rightarrow> [] | c # cs \<Rightarrow> matchFrom r (Some c, cs))
      | [] \<Rightarrow> (case snd p of [] \<Rightarrow> [] | c # cs \<Rightarrow> matchFrom r (Some c, cs)))"
  by pat_completeness auto
termination
  by (relation "measure (\<lambda>(r, p). length (snd p))") auto

declare matchFrom.simps [simp del]

definition matchAll :: "rx \<Rightarrow> string \<Rightarrow> string list" where
  "matchAll r text = matchFrom r (None, text)"




text \<open>\<open>pattern.test(text)\<close> for a pattern without the \<open>g\<close> flag.\<close>

fun testFrom :: "rx \<Rightarrow> char option \<Rightarrow> string \<Rightarrow> bool" where
  "testFrom r prev [] = (rxm r (prev, []) \<noteq> [])"
| "testFrom r prev (c # cs) = (rxm r (prev, c # cs) \<noteq> [] \<or> testFrom r (Some c) cs)"

definition testRx :: "rx \<Rightarrow> string \<Rightarrow> bool" where
  "testRx r text = testFrom r None text"

section \<open>Contextual tier, rule CTX-001 (ContextualAnalyzer.detectInstructionOverride)\<close>

definition verbs :: "string list" where
  "verbs = [''ignore'', ''disregard'', ''forget'', ''override'', ''bypass'',
            ''skip'', ''discard'', ''dismiss'', ''abandon'', ''drop'']"

definition modifiers :: "string list" where
  "modifiers = [''all'', ''any'', ''every'', ''the'', ''your'', ''previous'', ''prior'',
                ''above'', ''existing'', ''current'', ''original'', ''initial'', ''old'']"

definition nouns :: "string list" where
  "nouns = [''instructions'', ''instruction'', ''prompt'', ''rules'', ''commands'',
            ''guidelines'', ''constraints'', ''directives'', ''policies'', ''restrictions'',
            ''safeguards'', ''safety'', ''system prompt'', ''programming'', ''training'',
            ''context'', ''protocols'']"

text \<open>
  The body of the loop over \<open>verbs\<close>: \<open>indexOf\<close> finds the first occurrence of the verb
  only; the inner loop over \<open>nouns\<close> pushes one detection at the first noun that the window
  includes and breaks.
\<close>

definition overrideForVerb :: "string \<Rightarrow> string \<Rightarrow> string \<Rightarrow> Detection list" where
  "overrideForVerb text normalized verb =
     (case indexOf normalized verb of
        None \<Rightarrow> []
      | Some verbIdx \<Rightarrow>
          (let window = slice normalized verbIdx (verbIdx + length verb + 60)
           in case find (\<lambda>noun. includesStr window noun) nouns of
                None \<Rightarrow> []
              | Some noun \<Rightarrow>
                  (let hasModifier = list_ex (\<lambda>m. includesStr window m) modifiers;
                       matchStr = trim (slice text verbIdx (min (verbIdx + length verb + 60) (length text)))
                   in [\<lparr>tier = Contextual, ruleId = ''CTX-001'', ruleName = ''Instruction Override'',
                         severity = (if hasModifier then 0.80 else 0.65),
                         matchedContent = slice matchStr 0 100,
                         matchOffset = int verbIdx,
                         matchLength = int (min (length matchStr) 100),
                         confidence = (if hasModifier then 0.90 else 0.75),
                         metadata = None\<rparr>])))"

definition detectInstructionOverride :: "string \<Rightarrow> Detection list" where
  "detectInstructionOverride text =
     (let normalized = toLowerCase text
      in concat (map (overrideForVerb text normalized) verbs))"

section \<open>Contextual tier (ContextualAnalyzer): the regex rules\<close>




subsection \<open>CTX-002 Imperative + System\<close>










subsection \<open>CTX-003 Shell Commands\<close>




subsection \<open>CTX-004 Tool Call Syntax\<close>




subsection \<open>CTX-005 Role Assumption\<close>



subsection \<open>CTX-006 Output Manipulation\<close>



subsection \<open>CTX-007 Urgency / Authority\<close>



subsection \<open>CTX-008 Payload Delivery\<close>



subsection \<open>CTX-009 Sensitive File Paths\<close>



subsection \<open>Contextual weighting and the tier's \<open>analyze\<close>\<close>




section \<open>Structural tier, rule STRUCT-003 (StructuralAnalyzer.detectHtmlInjection)\<close>






section \<open>Threat intelligence: types, cache and client\<close>

record ThreatCheckResult =
  known :: bool
  confidence_t :: real
  reportCount :: real
  firstSeen :: "string option"
  lastSeen :: "string option"
  category :: "string option"

record ThreatFingerprint =
  contentHash :: string
  structuralHash :: string
  patternIds :: "string list"
  riskScore_f :: real
  organizerDomain_f :: "string option"

record CachedThreatEntry =
  hash_c :: string
  result_c :: ThreatCheckResult
  cachedAt :: int
  expiresAt :: int

record ThreatIntelClientConfig =
  apiUrl :: string
  enabled :: bool
  syncIntervalMinutes :: nat
  cacheTtlMs :: int

text \<open>
  What one \<open>fetch\<close> of \<open>GET {api}/check/{hash}\<close> does: it throws (network error,
  timeout, a body that is not JSON), answers with a status that is not ok, or answers a
  check result. The cloud is a function from the hash asked to that outcome.
\<close>

datatype CloudResponse = FetchThrows | NotOk | OkJson ThreatCheckResult

text \<open>
  The state of a client: the entries of its cache (an insertion-ordered map, loaded), the
  clock that \<open>Date.now()\<close> reads, and the log of the hashes it has asked the cloud about,
  latest last. The log is what "issuing a cloud request" means in the statements below.
  Persisting the cache to its file never changes what a later \<open>get\<close> returns (the entries
  stay in memory, and a failed write is swallowed), so the file is not part of the state.
\<close>

record ClientState =
  entries :: "(string \<times> CachedThreatEntry) list"
  now :: int
  requests :: "string list"

definition negative :: ThreatCheckResult where
  "negative = \<lparr>known = False, confidence_t = 0, reportCount = 0, firstSeen = None,
     lastSeen = None, category = None\<rparr>"

text \<open>\<open>Map.delete\<close> on the insertion-ordered map.\<close>

definition map_delete :: "'k \<Rightarrow> ('k \<times> 'v) list \<Rightarrow> ('k \<times> 'v) list" where
  "map_delete k m = filter (\<lambda>kv. fst kv \<noteq> k) m"

definition cache_get :: "string \<Rightarrow> ClientState \<Rightarrow> ThreatCheckResult option \<times> ClientState" where
  "cache_get h st =
     (case map_of (entries st) h of
        None \<Rightarrow> (None, st)
      | Some entry \<Rightarrow>
          if expiresAt entry < now st
          then (None, st\<lparr>entries := map_delete h (entries st)\<rparr>)
          else (Some (result_c entry), st))"

definition cache_set :: "ThreatIntelClientConfig \<Rightarrow> string \<Rightarrow> ThreatCheckResult \<Rightarrow> ClientState \<Rightarrow> ClientState" where
  "cache_set cfg h r st =
     st\<lparr>entries := map_set h \<lparr>hash_c = h, result_c = r, cachedAt = now st,
                                 expiresAt = now st + cacheTtlMs cfg\<rparr> (entries st)\<rparr>"

text \<open>
  \<open>cloudCheck\<close>: one request, logged; a response that is not ok is a negative result;
  \<open>None\<close> stands for the exception that the caller's \<open>try\<close> catches.
\<close>

definition cloudCheck :: "(string \<Rightarrow> CloudResponse) \<Rightarrow> string \<Rightarrow> ClientState
    \<Rightarrow> ThreatCheckResult option \<times> ClientState" where
  "cloudCheck cloud h st =
     (let st' = st\<lparr>requests := requests st @ [h]\<rparr>
      in case cloud h of
           FetchThrows \<Rightarrow> (None, st')
         | NotOk \<Rightarrow> (Some negative, st')
         | OkJson r \<Rightarrow> (Some r, st'))"

definition isKnown :: "ThreatCheckResult option \<Rightarrow> bool" where
  \<comment> \<open>\<open>cached?.known\<close>\<close>
  "isKnown c = (case c of None \<Rightarrow> False | Some r \<Rightarrow> known r)"

definition check :: "ThreatIntelClientConfig \<Rightarrow> (string \<Rightarrow> CloudResponse) \<Rightarrow> ThreatFingerprint
    \<Rightarrow> ClientState \<Rightarrow> ThreatCheckResult \<times> ClientState" where
  "check cfg cloud fingerprint st =
     (let (cachedContent, st1) = cache_get (contentHash fingerprint) st
      in if isKnown cachedContent then (the cachedContent, st1)
      else let (cachedStructural, st2) = cache_get (structuralHash fingerprint) st1
      in if isKnown cachedStructural then (the cachedStructural, st2)
      else if \<not> enabled cfg then (negative, st2)
      else (case cloudCheck cloud (contentHash fingerprint) st2 of
              (None, st3) \<Rightarrow> (negative, st3)
            | (Some cloudResult, st3) \<Rightarrow>
                (let st4 = cache_set cfg (contentHash fingerprint) cloudResult st3
                 in if known cloudResult then (cloudResult, st4)
                    else (case cloudCheck cloud (structuralHash fingerprint) st4 of
                            (None, st5) \<Rightarrow> (negative, st5)
                          | (Some structuralResult, st5) \<Rightarrow>
                              (let st6 = cache_set cfg (structuralHash fingerprint) structuralResult st5
                               in if known structuralResult then (structuralResult, st6)
                                  else (negative, st6))))))"

section \<open>Threat intelligence tier (ThreatIntelTier)\<close>

definition createDetection :: "ThreatCheckResult \<Rightarrow> string \<Rightarrow> Detection" where
  "createDetection r h =
     (let baseSeverity = confidence_t r;
          reportBonus = min (reportCount r * 0.02) 0.15;
          sev = min (baseSeverity + reportBonus) 1.0
      in \<lparr>tier = ThreatIntel, ruleId = ''THREAT-001'', ruleName = ''Known Threat Hash'',
           severity = sev,
           matchedContent = ''Hash '' @ slice h 0 16 @ ''... matched known threat'',
           matchOffset = 0, matchLength = 0,
           confidence = confidence_t r,
           metadata = Some [(''reportCount'', MNum (reportCount r)),
                            (''firstSeen'', (case firstSeen r of None \<Rightarrow> MUndefined | Some v \<Rightarrow> MStr v)),
                            (''lastSeen'', (case lastSeen r of None \<Rightarrow> MUndefined | Some v \<Rightarrow> MStr v)),
                            (''category'', (case category r of None \<Rightarrow> MUndefined | Some v \<Rightarrow> MStr v))]\<rparr>)"

text \<open>
  The tier asks its client. Everything inside its \<open>try\<close> may throw in JavaScript: each of
  the three calls returns \<open>None\<close> for an exception, which the \<open>catch\<close> turns into no
  detection. The fingerprinter and the client are the tier's collaborators, passed in.
\<close>

record 's ThreatIntelDeps =
  computeContentHash_d :: "string \<Rightarrow> string option"
  computeStructuralHash_d :: "string \<Rightarrow> string option"
  check_d :: "ThreatFingerprint \<Rightarrow> 's \<Rightarrow> ThreatCheckResult option \<times> 's"

definition analyzeThreatIntel :: "'s ThreatIntelDeps \<Rightarrow> 's DetectionTier" where
  "analyzeThreatIntel deps text context st =
     (if text = [] then ([], st)
      else case computeContentHash_d deps text of
        None \<Rightarrow> ([], st)
      | Some ch \<Rightarrow>
          (case computeStructuralHash_d deps text of
             None \<Rightarrow> ([], st)
           | Some sh \<Rightarrow>
               (case check_d deps \<lparr>contentHash = ch, structuralHash = sh, patternIds = [],
                                    riskScore_f = 0, organizerDomain_f = None\<rparr> st of
                  (None, st') \<Rightarrow> ([], st')
                | (Some r, st') \<Rightarrow> if \<not> known r then ([], st') else ([createDetection r ch], st'))))"

section \<open>Concrete inputs for the closed instances\<close>

definition exStructural :: Detection where
  "exStructural = \<lparr>tier = Structural, ruleId = ''STRUCT-003'', ruleName = ''HTML/Script Injection'',
     severity = 0.9, matchedContent = ''<script>'', matchOffset = 6, matchLength = 8,
     confidence = 0.95, metadata = None\<rparr>"

definition exContextual :: Detection where
  "exContextual = \<lparr>tier = Contextual, ruleId = ''CTX-005'', ruleName = ''Role Assumption'',
     severity = 0.8, matchedContent = ''you are now'', matchOffset = 0, matchLength = 0,
     confidence = 0.8, metadata = None\<rparr>"

definition exTier :: "unit DetectionTier" where
  "exTier text context st = ([exStructural, exContextual], st)"

definition exEngine :: "unit Engine" where
  "exEngine = \<lparr>tiers = [exTier], scorer = DEFAULT_CONFIG\<rparr>"

definition exClock :: Clock where
  "exClock = \<lparr>startTime = 0, endTime = 1, nowIso = ''2026-01-01T00:00:00.000Z''\<rparr>"

definition exEvent :: CalendarEvent where
  "exEvent = \<lparr>id_e = ''b'', calendarId = None, summary = None,
     description = Some ''Hello <script> world'', location = Some ''  '',
     organizer = None, attendees = Some [\<lparr>displayName = Some '' '', email = Some ''a@b.c''\<rparr>],
     attachments = Some [\<lparr>title = Some ''   ''\<rparr>]\<rparr>"


definition exJsUri :: Detection where
  "exJsUri = \<lparr>tier = Structural, ruleId = ''STRUCT-004'', ruleName = ''JavaScript URI'',
     severity = 0.95, matchedContent = ''javascript:'', matchOffset = 13, matchLength = 11,
     confidence = 0.95, metadata = None\<rparr>"

definition exOverride :: Detection where
  "exOverride = \<lparr>tier = Contextual, ruleId = ''CTX-001'', ruleName = ''Instruction Override'',
     severity = 0.65, matchedContent = ''ignore rules javascript:a <script x'', matchOffset = 0,
     matchLength = 35, confidence = 0.75, metadata = None\<rparr>"

definition exOverlapResult :: FieldScanResult where
  "exOverlapResult = \<lparr>fieldName = ''location'', originalLength = 35, riskScore = 0.773375,
     riskLevel = DANGEROUS, action = REDACT, detections = [exJsUri, exOverride],
     sanitizedContent = None\<rparr>"

definition exClientConfig :: ThreatIntelClientConfig where
  "exClientConfig = \<lparr>apiUrl = ''https://api.calguard.dev/v1'', enabled = True,
     syncIntervalMinutes = 15, cacheTtlMs = 86400000\<rparr>"

definition exCloud :: "string \<Rightarrow> CloudResponse" where
  "exCloud h = OkJson negative"

definition exFingerprint :: ThreatFingerprint where
  "exFingerprint = \<lparr>contentHash = ''aa'', structuralHash = ''bb'', patternIds = [],
     riskScore_f = 0, organizerDomain_f = None\<rparr>"

definition exClientState :: ClientState where
  "exClientState = \<lparr>entries = [], now = 1000, requests = []\<rparr>"

definition exKnown :: ThreatCheckResult where
  "exKnown = \<lparr>known = True, confidence_t = 0.9, reportCount = 10, firstSeen = None,
     lastSeen = None, category = Some ''prompt-injection''\<rparr>"

definition exDeps :: "unit ThreatIntelDeps" where
  "exDeps = \<lparr>computeContentHash_d = (\<lambda>t. Some ''aa''), computeStructuralHash_d = (\<lambda>t. Some ''bb''),
     check_d = (\<lambda>fp st. (Some exKnown, st))\<rparr>"

definition exContext :: ScanContext where
  "exContext = \<lparr>ctxFieldName = ''description'', fieldType = Description, organizerEmail = None,
     organizerDomain = None, isExternalOrganizer = False, calendarOwnerDomain = None\<rparr>"

section \<open>Auxiliary notions used in the proofs\<close>

definition grp :: "(Tier \<times> Detection list) list \<Rightarrow> Tier \<Rightarrow> Detection list" where
  "grp m t = (case map_of m t of None \<Rightarrow> [] | Some e \<Rightarrow> e)"

definition grp_ok :: "(Tier \<times> Detection list) list \<Rightarrow> bool" where
  "grp_ok m = (\<forall>t e. map_of m t = Some e \<longrightarrow> e \<noteq> [])"

definition ind :: "(real \<Rightarrow> bool) \<Rightarrow> (Tier \<times> real) list \<Rightarrow> Tier \<Rightarrow> nat" where
  "ind P m t = (case map_of m t of None \<Rightarrow> 0 | Some s \<Rightarrow> if P s then 1 else 0)"



definition sanStep :: "CalendarEvent \<Rightarrow> FieldScanResult \<Rightarrow> CalendarEvent" where
  "sanStep sanitized fieldResult =
    (if sanitizedContent fieldResult \<noteq> None \<and>
                (action fieldResult = REDACT \<or> action fieldResult = BLOCK)
             then (if fieldName fieldResult = ''summary''
                     then sanitized\<lparr>summary := sanitizedContent fieldResult\<rparr>
                   else if fieldName fieldResult = ''description''
                     then sanitized\<lparr>description := sanitizedContent fieldResult\<rparr>
                   else if fieldName fieldResult = ''location''
                     then sanitized\<lparr>location := sanitizedContent fieldResult\<rparr>
                   else sanitized)
             else sanitized)"

definition untouched :: "CalendarEvent \<Rightarrow> CalendarEvent \<Rightarrow> bool" where
  "untouched a b = (id_e a = id_e b \<and> calendarId a = calendarId b \<and> organizer a = organizer b
     \<and> attendees a = attendees b \<and> attachments a = attachments b)"

definition rewrittenBy :: "string \<Rightarrow> FieldScanResult list \<Rightarrow> string option \<Rightarrow> bool" where
  "rewrittenBy name frs v = (\<exists>fr\<in>set frs. fieldName fr = name \<and> (action fr = REDACT \<or> action fr = BLOCK)
      \<and> sanitizedContent fr \<noteq> None \<and> sanitizedContent fr = v)"



definition attendeeName :: "nat \<Rightarrow> string" where
  "attendeeName i = ''attendees['' @ showNat i @ ''].displayName''"

definition attachmentName :: "nat \<Rightarrow> string" where
  "attachmentName i = ''attachments['' @ showNat i @ ''].title''"








section \<open>The scorer computes the specified score\<close>

lemma map_of_map_set: "map_of (map_set k v m) k' = (if k' = k then Some v else map_of m k')"
  by (induction m) auto

lemma map_set_keys: "fst ` set (map_set k v m) = insert k (fst ` set m)"
proof (induction m)
  case Nil show ?case by simp
next
  case (Cons a m)
  obtain k' v' where a: "a = (k', v')" by (cases a)
  show ?case using Cons unfolding a by (cases "k = k'") auto
qed

lemma distinct_map_set: "distinct (map fst m) \<Longrightarrow> distinct (map fst (map_set k v m))"
  by (induction m) (auto simp: map_set_keys)

lemma distinct_byTier_add: "distinct (map fst m) \<Longrightarrow> distinct (map fst (byTier_add m d))"
  by (simp add: byTier_add_def distinct_map_set)

lemma distinct_foldl_byTier: "distinct (map fst m) \<Longrightarrow> distinct (map fst (foldl byTier_add m ds))"
  by (induction ds arbitrary: m) (auto simp: distinct_byTier_add)

lemma grp_ok_add: "grp_ok m \<Longrightarrow> grp_ok (byTier_add m d)"
  by (auto simp: grp_ok_def byTier_add_def map_of_map_set split: if_splits)

lemma grp_add: "grp (byTier_add m d) t = grp m t @ (if tier d = t then [d] else [])"
  by (auto simp: grp_def byTier_add_def map_of_map_set split: option.splits)

lemma grp_ok_foldl: "grp_ok m \<Longrightarrow> grp_ok (foldl byTier_add m ds)"
  by (induction ds arbitrary: m) (auto simp: grp_ok_add)

lemma grp_foldl: "grp (foldl byTier_add m ds) t = grp m t @ filter (\<lambda>d. tier d = t) ds"
  by (induction ds arbitrary: m) (auto simp: grp_add)

lemma map_of_byTier:
  "map_of (byTier D) t = (if filter (\<lambda>d. tier d = t) D = [] then None else Some (filter (\<lambda>d. tier d = t) D))"
proof -
  have ok: "grp_ok (byTier D)" unfolding byTier_def by (rule grp_ok_foldl) (simp add: grp_ok_def)
  have g: "grp (byTier D) t = filter (\<lambda>d. tier d = t) D"
    unfolding byTier_def grp_foldl by (simp add: grp_def)
  show ?thesis
  proof (cases "map_of (byTier D) t")
    case None
    with g show ?thesis by (simp add: grp_def)
  next
    case (Some e)
    with ok have "e \<noteq> []" by (auto simp: grp_ok_def)
    with Some g show ?thesis by (simp add: grp_def)
  qed
qed

lemma math_max_Max: "xs \<noteq> [] \<Longrightarrow> math_max xs = Max (set xs)"
proof -
  assume "xs \<noteq> []"
  then obtain x ys where xs: "xs = x # ys" by (cases xs) auto
  have "foldl max a ys = fold max ys a" for a :: real
    by (induction ys arbitrary: a) (simp_all add: max.commute)
  then have "foldl max x ys = fold max ys x" .
  then show ?thesis unfolding xs by (simp only: math_max.simps Max.set_eq_fold)
qed

lemma tierScore_filter:
  "filter (\<lambda>d. tier d = t) D \<noteq> [] \<Longrightarrow> tierScore (filter (\<lambda>d. tier d = t) D) = spec_tier_score D t"
  by (simp add: tierScore_def spec_tier_score_def spec_detections_in_tier_def Let_def
      math_max_Max min.commute mult.commute)

lemma map_of_tierScores:
  "map_of (tierScores D) t =
     (if filter (\<lambda>d. tier d = t) D = [] then None else Some (spec_tier_score D t))"
  by (simp add: tierScores_def map_of_map map_of_byTier tierScore_filter)

lemma tierScores_get:
  "(case map_of (tierScores D) t of None \<Rightarrow> 0 | Some s \<Rightarrow> s) = spec_tier_score D t"
  by (simp add: map_of_tierScores) (simp add: spec_tier_score_def spec_detections_in_tier_def)

lemma weightedSum_spec: "weightedSum (tierScores D) = spec_composite D"
  by (simp add: weightedSum_def TIER_WEIGHTS_def tierScores_get spec_composite_def spec_weight_def)

lemma distinct_tierScores: "distinct (map fst (tierScores D))"
proof -
  have "map fst (tierScores D) = map fst (byTier D)"
    by (simp add: tierScores_def case_prod_unfold comp_def)
  moreover have "distinct (map fst (byTier D))"
    unfolding byTier_def by (rule distinct_foldl_byTier) simp
  ultimately show ?thesis by simp
qed

lemma ind_Cons_other: "k \<noteq> t \<Longrightarrow> ind P ((k, v) # m) t = ind P m t"
  by (simp add: ind_def)

lemma ind_Cons_same: "ind P ((k, v) # m) k = (if P v then 1 else 0)"
  by (simp add: ind_def)

lemma ind_absent: "t \<notin> fst ` set m \<Longrightarrow> ind P m t = 0"
proof -
  assume "t \<notin> fst ` set m"
  then have "map_of m t = None" by (simp add: map_of_eq_None_iff)
  then show ?thesis by (simp add: ind_def)
qed

lemma count_firing:
  "distinct (map fst m) \<Longrightarrow>
   length (filter P (map snd m)) = ind P m Structural + ind P m Contextual + ind P m ThreatIntel"
proof (induction m)
  case Nil
  show ?case by (simp add: ind_def)
next
  case (Cons a m)
  obtain k v where a: "a = (k, v)" by (cases a)
  from Cons.prems have nk: "k \<notin> fst ` set m" and d: "distinct (map fst m)" by (auto simp: a)
  have ih: "length (filter P (map snd m)) = ind P m Structural + ind P m Contextual + ind P m ThreatIntel"
    by (rule Cons.IH [OF d])
  show ?case
  proof (cases k)
    case Structural
    then show ?thesis using ih ind_absent [OF nk, of P]
      by (simp add: a ind_Cons_same ind_Cons_other)
  next
    case Contextual
    then show ?thesis using ih ind_absent [OF nk, of P]
      by (simp add: a ind_Cons_same ind_Cons_other)
  next
    case ThreatIntel
    then show ?thesis using ih ind_absent [OF nk, of P]
      by (simp add: a ind_Cons_same ind_Cons_other)
  qed
qed

lemma ind_tierScores: "ind (\<lambda>s. s > 0) (tierScores D) t = (if spec_tier_score D t > 0 then 1 else 0)"
  by (simp add: ind_def map_of_tierScores) (simp add: spec_tier_score_def spec_detections_in_tier_def)

lemma firing_spec: "length (filter (\<lambda>s. s > 0) (map snd (tierScores D))) = spec_firing D"
proof -
  have "length (filter (\<lambda>s. s > 0) (map snd (tierScores D))) =
        ind (\<lambda>s. s > 0) (tierScores D) Structural + ind (\<lambda>s. s > 0) (tierScores D) Contextual
        + ind (\<lambda>s. s > 0) (tierScores D) ThreatIntel"
    by (rule count_firing [OF distinct_tierScores])
  also have "\<dots> = spec_firing D"
    unfolding ind_tierScores by (simp add: spec_firing_def)
  finally show ?thesis .
qed

lemma corroborate_spec: "corroborate (spec_firing D) (spec_composite D) = spec_score D"
  by (simp add: corroborate_def spec_score_def Let_def min.commute)

lemma levelToAction_spec: "levelToAction l = spec_action l"
  by (cases l) (simp_all add: spec_action_def)

lemma scoreField_refines: "scoreField cfg D = spec_scoreField cfg D"
proof (cases "D = []")
  case True
  then show ?thesis by (simp add: scoreField_def spec_scoreField_def)
next
  case False
  have c: "corroborate (length (filter (\<lambda>s. s > 0) (map snd (tierScores D)))) (weightedSum (tierScores D))
           = spec_score D"
    unfolding firing_spec weightedSum_spec by (rule corroborate_spec)
  have l: "scoreToLevel cfg x = spec_level cfg x" for x
    by (simp add: scoreToLevel_def spec_level_def)
  from False show ?thesis
    unfolding scoreField_def spec_scoreField_def Let_def c l levelToAction_spec by simp
qed


lemma byTier_groups_nonempty: "(t, tds) \<in> set (byTier D) \<Longrightarrow> tds \<noteq> []"
proof -
  assume m: "(t, tds) \<in> set (byTier D)"
  have "distinct (map fst (byTier D))"
    unfolding byTier_def by (rule distinct_foldl_byTier) simp
  with m have "map_of (byTier D) t = Some tds" by simp
  then show ?thesis by (simp add: map_of_byTier split: if_splits)
qed













section \<open>The sanitized event\<close>

lemma applySanitization_alt:
  "applySanitization event result =
     (if overallAction result = PASS then event else foldl sanStep event (fieldResults result))"
  unfolding applySanitization_def sanStep_def by (rule refl)

lemma sanStep_untouched: "untouched (sanStep a fr) a"
  by (simp add: sanStep_def untouched_def)

lemma foldl_sanStep_untouched: "untouched (foldl sanStep a frs) a"
proof (induction frs arbitrary: a)
  case Nil show ?case by (simp add: untouched_def)
next
  case (Cons fr frs)
  have "untouched (foldl sanStep (sanStep a fr) frs) (sanStep a fr)" by (rule Cons.IH)
  with sanStep_untouched [of a fr] show ?case by (simp add: untouched_def)
qed

lemma rewrittenBy_Cons: "rewrittenBy n frs v \<Longrightarrow> rewrittenBy n (fr # frs) v"
  by (auto simp: rewrittenBy_def)

lemma foldl_sanStep_summary:
  "summary (foldl sanStep a frs) = summary a \<or> rewrittenBy ''summary'' frs (summary (foldl sanStep a frs))"
proof (induction frs arbitrary: a)
  case Nil show ?case by simp
next
  case (Cons fr frs)
  from Cons.IH [of "sanStep a fr"] show ?case
  proof
    assume e: "summary (foldl sanStep (sanStep a fr) frs) = summary (sanStep a fr)"
    show ?thesis
    proof (cases "summary (sanStep a fr) = summary a")
      case True with e show ?thesis by simp
    next
      case False
      then have "rewrittenBy ''summary'' [fr] (summary (sanStep a fr))"
        by (auto simp: sanStep_def rewrittenBy_def split: if_splits)
      then have "rewrittenBy ''summary'' (fr # frs) (summary (sanStep a fr))"
        by (auto simp: rewrittenBy_def)
      with e show ?thesis by simp
    qed
  next
    assume "rewrittenBy ''summary'' frs (summary (foldl sanStep (sanStep a fr) frs))"
    then show ?thesis by (simp add: rewrittenBy_Cons)
  qed
qed

lemma foldl_sanStep_description:
  "description (foldl sanStep a frs) = description a \<or> rewrittenBy ''description'' frs (description (foldl sanStep a frs))"
proof (induction frs arbitrary: a)
  case Nil show ?case by simp
next
  case (Cons fr frs)
  from Cons.IH [of "sanStep a fr"] show ?case
  proof
    assume e: "description (foldl sanStep (sanStep a fr) frs) = description (sanStep a fr)"
    show ?thesis
    proof (cases "description (sanStep a fr) = description a")
      case True with e show ?thesis by simp
    next
      case False
      then have "rewrittenBy ''description'' [fr] (description (sanStep a fr))"
        by (auto simp: sanStep_def rewrittenBy_def split: if_splits)
      then have "rewrittenBy ''description'' (fr # frs) (description (sanStep a fr))"
        by (auto simp: rewrittenBy_def)
      with e show ?thesis by simp
    qed
  next
    assume "rewrittenBy ''description'' frs (description (foldl sanStep (sanStep a fr) frs))"
    then show ?thesis by (simp add: rewrittenBy_Cons)
  qed
qed

lemma foldl_sanStep_location:
  "location (foldl sanStep a frs) = location a \<or> rewrittenBy ''location'' frs (location (foldl sanStep a frs))"
proof (induction frs arbitrary: a)
  case Nil show ?case by simp
next
  case (Cons fr frs)
  from Cons.IH [of "sanStep a fr"] show ?case
  proof
    assume e: "location (foldl sanStep (sanStep a fr) frs) = location (sanStep a fr)"
    show ?thesis
    proof (cases "location (sanStep a fr) = location a")
      case True with e show ?thesis by simp
    next
      case False
      then have "rewrittenBy ''location'' [fr] (location (sanStep a fr))"
        by (auto simp: sanStep_def rewrittenBy_def split: if_splits)
      then have "rewrittenBy ''location'' (fr # frs) (location (sanStep a fr))"
        by (auto simp: rewrittenBy_def)
      with e show ?thesis by simp
    qed
  next
    assume "rewrittenBy ''location'' frs (location (foldl sanStep (sanStep a fr) frs))"
    then show ?thesis by (simp add: rewrittenBy_Cons)
  qed
qed

lemma scanEvent_sanitized:
  "scanEvent eng clock E owner st = ((result, sanitized), st') \<Longrightarrow> sanitized = applySanitization E result"
  by (auto simp: scanEvent_def Let_def split: prod.splits)

lemma applySanitization_untouched: "untouched (applySanitization E r) E"
  by (simp add: applySanitization_alt foldl_sanStep_untouched) (simp add: untouched_def)

text \<open>
  Claim C3. The sanitized event that \<open>scanEvent\<close> returns has the id, calendarId,
  organizer, attendees (so every attendee's email) and attachments (so every attachment's
  title) of the input event. Its summary, description and location differ from the input's
  only where a field result of that name has action Redact or Block and carries a
  sanitized content, which is then the new value.
\<close>

theorem sanitizedEvent_frame:
  assumes "scanEvent eng clock E owner st = ((result, sanitized), st')"
  shows "id_e sanitized = id_e E \<and> calendarId sanitized = calendarId E \<and> organizer sanitized = organizer E
    \<and> attendees sanitized = attendees E \<and> attachments sanitized = attachments E
    \<and> (summary sanitized \<noteq> summary E \<longrightarrow>
         (\<exists>fr\<in>set (fieldResults result). fieldName fr = ''summary'' \<and> (action fr = REDACT \<or> action fr = BLOCK)
            \<and> sanitizedContent fr \<noteq> None \<and> sanitizedContent fr = summary sanitized))
    \<and> (description sanitized \<noteq> description E \<longrightarrow>
         (\<exists>fr\<in>set (fieldResults result). fieldName fr = ''description'' \<and> (action fr = REDACT \<or> action fr = BLOCK)
            \<and> sanitizedContent fr \<noteq> None \<and> sanitizedContent fr = description sanitized))
    \<and> (location sanitized \<noteq> location E \<longrightarrow>
         (\<exists>fr\<in>set (fieldResults result). fieldName fr = ''location'' \<and> (action fr = REDACT \<or> action fr = BLOCK)
            \<and> sanitizedContent fr \<noteq> None \<and> sanitizedContent fr = location sanitized))"
proof -
  have s: "sanitized = applySanitization E result" by (rule scanEvent_sanitized [OF assms])
  have u: "untouched sanitized E" unfolding s by (rule applySanitization_untouched)
  have a: "summary sanitized \<noteq> summary E \<longrightarrow> rewrittenBy ''summary'' (fieldResults result) (summary sanitized)"
    unfolding s applySanitization_alt using foldl_sanStep_summary [of E "fieldResults result"] by auto
  have b: "description sanitized \<noteq> description E \<longrightarrow> rewrittenBy ''description'' (fieldResults result) (description sanitized)"
    unfolding s applySanitization_alt using foldl_sanStep_description [of E "fieldResults result"] by auto
  have c: "location sanitized \<noteq> location E \<longrightarrow> rewrittenBy ''location'' (fieldResults result) (location sanitized)"
    unfolding s applySanitization_alt using foldl_sanStep_location [of E "fieldResults result"] by auto
  from u a b c show ?thesis unfolding untouched_def rewrittenBy_def by blast
qed

section \<open>Whitespace-only fields\<close>









lemma showNat_nonempty: "showNat n \<noteq> []"
  by (subst showNat.simps) simp

lemma digitChar_inj: "a < 10 \<Longrightarrow> b < 10 \<Longrightarrow> digitChar a = digitChar b \<Longrightarrow> a = b"
proof -
  assume a: "a < 10" and b: "b < 10" and e: "digitChar a = digitChar b"
  from e have "(of_char (digitChar a) :: nat) = of_char (digitChar b)" by simp
  then have "(48 + a) mod 256 = (48 + b) mod 256" by (simp add: digitChar_def)
  with a b show ?thesis by simp
qed

lemma showNat_small: "n < 10 \<Longrightarrow> showNat n = [digitChar n]"
  by (subst showNat.simps) simp

lemma showNat_big: "\<not> n < 10 \<Longrightarrow> showNat n = showNat (n div 10) @ [digitChar (n mod 10)]"
  by (subst showNat.simps) simp

lemma showNat_inj: "showNat n = showNat m \<Longrightarrow> n = m"
proof (induction n arbitrary: m rule: less_induct)
  case (less n)
  show ?case
  proof (cases "n < 10")
    case n: True
    show ?thesis
    proof (cases "m < 10")
      case True
      with n less.prems show ?thesis by (simp add: showNat_small digitChar_inj)
    next
      case False
      with n less.prems showNat_nonempty [of "m div 10"] show ?thesis
        by (simp add: showNat_small showNat_big)
    qed
  next
    case n: False
    show ?thesis
    proof (cases "m < 10")
      case True
      with n less.prems showNat_nonempty [of "n div 10"] show ?thesis
        by (simp add: showNat_small showNat_big)
    next
      case False
      with n less.prems have e: "showNat (n div 10) = showNat (m div 10)"
        and d: "digitChar (n mod 10) = digitChar (m mod 10)"
        by (simp_all add: showNat_big)
      from n have "n div 10 < n" by simp
      from less.IH [OF this e] have q: "n div 10 = m div 10" .
      from d have r: "n mod 10 = m mod 10" by (rule digitChar_inj [rotated 2]) simp_all
      from q r show ?thesis by (metis div_mult_mod_eq)
    qed
  qed
qed

lemma attendeeName_inj: "attendeeName i = attendeeName j \<Longrightarrow> i = j"
  by (simp add: attendeeName_def showNat_inj)

lemma attachmentName_inj: "attachmentName i = attachmentName j \<Longrightarrow> i = j"
  by (simp add: attachmentName_def showNat_inj)














section \<open>Closed instances for the engine\<close>

lemma exEvent_scan:
  "scanEvent exEngine exClock exEvent None () =
  ((\<lparr>eventId = ''b'', calendarId_r = '''', organizerEmail_r = None, isExternalOrganizer_r = False,
           overallRiskScore = 0.828, overallRiskLevel = DANGEROUS, overallAction = REDACT,
           fieldResults =
             [\<lparr>fieldName = ''description'', originalLength = 20, riskScore = 0.828,
                 riskLevel = DANGEROUS, action = REDACT,
                 detections = [exStructural, exContextual],
                 sanitizedContent = Some ''Hello [REDACTED:STRUCT-003] world''\<rparr>],
           scanDurationMs = 1, timestamp = ''2026-01-01T00:00:00.000Z''\<rparr>,
    exEvent\<lparr>description := Some ''Hello [REDACTED:STRUCT-003] world''\<rparr>), ())"
  by (simp add: scanEvent_def exEngine_def exClock_def exEvent_def extractDomain_def organizerEmailOf_def
      truthy_def extractScannableFields_def trim_def isSpace_def scanField_def exTier_def
      scoreField_refines spec_scoreField_def spec_score_def spec_composite_def spec_firing_def
      spec_tier_score_def spec_detections_in_tier_def spec_weight_def spec_level_def spec_action_def
      DEFAULT_CONFIG_def exStructural_def exContextual_def maxDetectionsPerField_def
      redact_def redactDangerousContent_def sortedForRedaction_def redactStep_def slice_def sliceFrom_def
      placeholder_def scoreEvent_def scoreToLevel_def applySanitization_def Let_def)

theorem sanitizedEvent_frame_witness:
  "scanEvent exEngine exClock exEvent None () =
     ((fst (fst (scanEvent exEngine exClock exEvent None ())),
       exEvent\<lparr>description := Some ''Hello [REDACTED:STRUCT-003] world''\<rparr>), ())
   \<and> description (exEvent\<lparr>description := Some ''Hello [REDACTED:STRUCT-003] world''\<rparr>) \<noteq> description exEvent
   \<and> (\<exists>fr\<in>set (fieldResults (fst (fst (scanEvent exEngine exClock exEvent None ())))).
         fieldName fr = ''description'' \<and> (action fr = REDACT \<or> action fr = BLOCK)
         \<and> sanitizedContent fr \<noteq> None
         \<and> sanitizedContent fr = description (exEvent\<lparr>description := Some ''Hello [REDACTED:STRUCT-003] world''\<rparr>))
   \<and> attendees (exEvent\<lparr>description := Some ''Hello [REDACTED:STRUCT-003] world''\<rparr>) = attendees exEvent"
proof -
  let ?r = "fst (fst (scanEvent exEngine exClock exEvent None ()))"
  let ?s = "exEvent\<lparr>description := Some ''Hello [REDACTED:STRUCT-003] world''\<rparr>"
  have h: "scanEvent exEngine exClock exEvent None () = ((?r, ?s), ())"
    by (simp add: exEvent_scan)
  have d: "description ?s \<noteq> description exEvent" by (simp add: exEvent_def)
  from sanitizedEvent_frame [OF h] d h show ?thesis by blast
qed


section \<open>The regex matcher and the order of detections\<close>































section \<open>Character tables for evaluation\<close>












section \<open>The redactor on overlapping ranges\<close>

text \<open>
  Claim C2, at a failing input. The field text \<open>ignore rules javascript:a <script x\<close> has
  a STRUCT-004 detection at [13, 24) and a CTX-001 detection at [0, 35). The splice at
  offset 13 makes the text ten characters longer, so the later splice at offset 0 stops
  ten characters short of the end of its range: \<open><script\<close> from the redacted range
  survives, and the placeholder of STRUCT-004 is cut away.
\<close>

theorem redact_overlap_leaves_script:
  "redact ''ignore rules javascript:a <script x'' exOverlapResult = ''[REDACTED:CTX-001] <script x''
   \<and> includesStr (redact ''ignore rules javascript:a <script x'' exOverlapResult) ''<script''
   \<and> \<not> includesStr (redact ''ignore rules javascript:a <script x'' exOverlapResult) (placeholder exJsUri)"
  by (simp add: redact_def exOverlapResult_def redactDangerousContent_def sortedForRedaction_def
      exJsUri_def exOverride_def redactStep_def slice_def sliceFrom_def placeholder_def
      includesStr_def indexOf_def)

section \<open>CTX-001 looks at the first occurrence of each verb only\<close>

lemma overrideForVerb_at_most_one: "length (overrideForVerb text normalized verb) \<le> 1"
  by (simp add: overrideForVerb_def Let_def split: option.splits)

lemma length_concat_le:
  "(\<And>x. x \<in> set xs \<Longrightarrow> length (f x) \<le> 1) \<Longrightarrow> length (concat (map f xs)) \<le> length xs"
proof (induction xs)
  case Nil show ?case by simp
next
  case (Cons a xs)
  have "length (f a) \<le> 1" by (rule Cons.prems) simp
  moreover have "length (concat (map f xs)) \<le> length xs"
    by (rule Cons.IH) (rule Cons.prems, simp)
  ultimately show ?case by simp
qed

lemma detectInstructionOverride_at_most_ten: "length (detectInstructionOverride text) \<le> 10"
proof -
  have "length (detectInstructionOverride text) \<le> length verbs"
    unfolding detectInstructionOverride_def Let_def
    by (rule length_concat_le) (rule overrideForVerb_at_most_one)
  then show ?thesis by (simp add: verbs_def)
qed

text \<open>
  Claim C4, at two failing inputs. Two occurrences of \<open>ignore\<close>, each followed by a noun,
  give one detection; and an occurrence of \<open>ignore\<close> that is followed by nouns gives none
  when an earlier occurrence of the same verb has no noun in its window.
\<close>

theorem override_only_first_occurrence:
  "length (detectInstructionOverride ''ignore rules, ignore rules'') = 1
   \<and> detectInstructionOverride ''ignore this............................................................ignore all rules'' = []"
  by (simp add: detectInstructionOverride_def overrideForVerb_def verbs_def nouns_def modifiers_def
       toLowerCase_def lowerChar_def isUpper_def indexOf_def includesStr_def slice_def trim_def isSpace_def)

section \<open>The threat intelligence tier\<close>

text \<open>
  Claim C8. The tier emits at most one detection. When the client answers a result with
  known = true, it emits exactly one, THREAT-001, of severity
  \<open>min 1 (confidence + min (0.02 reportCount) 0.15)\<close>; when the client answers
  known = false, when the text is empty, or when fingerprinting or the query throws, it
  emits none (the result is a list in every case: nothing escapes).
\<close>

theorem threatIntel_at_most_one:
  "length (fst (analyzeThreatIntel deps text context st)) \<le> 1
   \<and> (\<forall>ch sh r. text \<noteq> [] \<and> computeContentHash_d deps text = Some ch
        \<and> computeStructuralHash_d deps text = Some sh
        \<and> fst (check_d deps \<lparr>contentHash = ch, structuralHash = sh, patternIds = [],
                                riskScore_f = 0, organizerDomain_f = None\<rparr> st) = Some r
        \<longrightarrow> (known r \<longrightarrow>
               (\<exists>d. fst (analyzeThreatIntel deps text context st) = [d]
                  \<and> tier d = ThreatIntel \<and> ruleId d = ''THREAT-001''
                  \<and> severity d = min 1.0 (confidence_t r + min (0.02 * reportCount r) 0.15)))
          \<and> (\<not> known r \<longrightarrow> fst (analyzeThreatIntel deps text context st) = []))
   \<and> (text = [] \<longrightarrow> fst (analyzeThreatIntel deps text context st) = [])
   \<and> (computeContentHash_d deps text = None \<longrightarrow> fst (analyzeThreatIntel deps text context st) = [])
   \<and> (computeStructuralHash_d deps text = None \<longrightarrow> fst (analyzeThreatIntel deps text context st) = [])
   \<and> (\<forall>ch sh. computeContentHash_d deps text = Some ch \<and> computeStructuralHash_d deps text = Some sh
        \<and> fst (check_d deps \<lparr>contentHash = ch, structuralHash = sh, patternIds = [],
                                riskScore_f = 0, organizerDomain_f = None\<rparr> st) = None
        \<longrightarrow> fst (analyzeThreatIntel deps text context st) = [])"
  by (auto simp: analyzeThreatIntel_def createDetection_def Let_def min.commute mult.commute
      split: option.splits prod.splits)

theorem threatIntel_at_most_one_witness:
  "''x'' \<noteq> [] \<and> computeContentHash_d exDeps ''x'' = Some ''aa''
   \<and> computeStructuralHash_d exDeps ''x'' = Some ''bb''
   \<and> fst (check_d exDeps \<lparr>contentHash = ''aa'', structuralHash = ''bb'', patternIds = [],
                                riskScore_f = 0, organizerDomain_f = None\<rparr> ()) = Some exKnown
   \<and> known exKnown
   \<and> (\<exists>d. fst (analyzeThreatIntel exDeps ''x'' exContext ()) = [d]
          \<and> tier d = ThreatIntel \<and> ruleId d = ''THREAT-001''
          \<and> severity d = min 1.0 (confidence_t exKnown + min (0.02 * reportCount exKnown) 0.15))
   \<and> min 1.0 (confidence_t exKnown + min (0.02 * reportCount exKnown) 0.15) = (1::real)"
proof -
  have h: "''x'' \<noteq> [] \<and> computeContentHash_d exDeps ''x'' = Some ''aa''
     \<and> computeStructuralHash_d exDeps ''x'' = Some ''bb''
     \<and> fst (check_d exDeps \<lparr>contentHash = ''aa'', structuralHash = ''bb'', patternIds = [],
                                riskScore_f = 0, organizerDomain_f = None\<rparr> ()) = Some exKnown"
    by (simp add: exDeps_def)
  have k: "known exKnown" by (simp add: exKnown_def)
  have v: "min 1.0 (confidence_t exKnown + min (0.02 * reportCount exKnown) 0.15) = (1::real)"
    by (simp add: exKnown_def)
  note t = threatIntel_at_most_one [of exDeps "''x''" exContext "()", THEN conjunct2, THEN conjunct1,
      rule_format, OF h, THEN conjunct1, rule_format, OF k]
  from h k t v show ?thesis by blast
qed

section \<open>The threat intelligence client and its cache\<close>

lemma check_content_cached:
  assumes "cache_get (contentHash fp) st = (Some r, st1)" "known r"
  shows "check cfg cloud fp st = (r, st1)"
  using assms by (simp add: check_def isKnown_def)

lemma cache_get_requests: "requests (snd (cache_get h st)) = requests st"
  by (simp add: cache_get_def split: option.splits)

lemma check_structural_cached:
  assumes "cache_get (contentHash fp) st = (c, st1)" "\<not> isKnown c"
      and "cache_get (structuralHash fp) st1 = (Some r, st2)" "known r"
  shows "check cfg cloud fp st = (r, st2)"
  using assms by (simp add: check_def isKnown_def)

lemma check_cached_no_request:
  assumes "isKnown (fst (cache_get (contentHash fp) st))
           \<or> isKnown (fst (cache_get (structuralHash fp) (snd (cache_get (contentHash fp) st))))"
  shows "requests (snd (check cfg cloud fp st)) = requests st"
  using assms cache_get_requests [of "contentHash fp" st]
    cache_get_requests [of "structuralHash fp" "snd (cache_get (contentHash fp) st)"]
  by (auto simp: check_def Let_def split: prod.splits)

lemma check_disabled:
  assumes "\<not> enabled cfg"
  shows "requests (snd (check cfg cloud fp st)) = requests st"
    and "\<not> isKnown (fst (cache_get (contentHash fp) st)) \<Longrightarrow>
         \<not> isKnown (fst (cache_get (structuralHash fp) (snd (cache_get (contentHash fp) st)))) \<Longrightarrow>
         fst (check cfg cloud fp st) = negative"
  using assms cache_get_requests [of "contentHash fp" st]
    cache_get_requests [of "structuralHash fp" "snd (cache_get (contentHash fp) st)"]
  by (auto simp: check_def Let_def split: prod.splits)

lemma ex_first_check:
  "check exClientConfig exCloud exFingerprint exClientState =
     (negative, \<lparr>entries = [(''aa'', \<lparr>hash_c = ''aa'', result_c = negative, cachedAt = 1000, expiresAt = 86401000\<rparr>),
                              (''bb'', \<lparr>hash_c = ''bb'', result_c = negative, cachedAt = 1000, expiresAt = 86401000\<rparr>)],
                  now = 1000, requests = [''aa'', ''bb'']\<rparr>)"
  by (simp add: check_def exClientConfig_def exCloud_def exFingerprint_def exClientState_def
      cache_get_def cache_set_def cloudCheck_def isKnown_def negative_def Let_def)

text \<open>
  Claim C7, at a failing input. The cloud is enabled and answers known = false for both
  hashes of a fingerprint. The first \<open>check\<close> asks the cloud about both and caches both
  answers; at the same instant both entries are unexpired (\<open>get\<close> returns them), and a
  second \<open>check\<close> of the same fingerprint asks the cloud about both hashes again.
\<close>

theorem negative_cache_entry_not_used:
  "cache_get ''aa'' (snd (check exClientConfig exCloud exFingerprint exClientState))
     = (Some negative, snd (check exClientConfig exCloud exFingerprint exClientState))
   \<and> cache_get ''bb'' (snd (check exClientConfig exCloud exFingerprint exClientState))
     = (Some negative, snd (check exClientConfig exCloud exFingerprint exClientState))
   \<and> requests (snd (check exClientConfig exCloud exFingerprint exClientState)) = [''aa'', ''bb'']
   \<and> requests (snd (check exClientConfig exCloud exFingerprint
         (snd (check exClientConfig exCloud exFingerprint exClientState)))) = [''aa'', ''bb'', ''aa'', ''bb'']"
  unfolding ex_first_check
  by (simp add: check_def exClientConfig_def exCloud_def exFingerprint_def
      cache_get_def cache_set_def cloudCheck_def isKnown_def negative_def Let_def)


end
